theory Spec2Isabelle
  imports Complex_Main
begin

section \<open>JavaScript values used by the scoring core\<close>

text \<open>
  A JavaScript \<open>number\<close> is an IEEE-754 double: a not-a-number value, the two infinities,
  or a finite double. The finite doubles are embedded in the reals in their order, the
  double that a decimal literal of the program denotes being sent to that decimal. The
  only operation the rating code applies to metric values is the comparison \<open><=\<close>, which
  on doubles is the order of their values and is false as soon as one operand is \<open>NaN\<close>;
  a property proved for every real holds for every double.
\<close>

datatype number = NaN | NegInf | Finite real | PosInf

text \<open>\<open>js_le a b\<close> is the JavaScript expression \<open>a <= b\<close> on numbers.\<close>

fun js_le :: "number \<Rightarrow> number \<Rightarrow> bool" where
  "js_le NaN _ = False"
| "js_le _ NaN = False"
| "js_le NegInf _ = True"
| "js_le _ PosInf = True"
| "js_le (Finite a) (Finite b) = (a \<le> b)"
| "js_le _ _ = False"

text \<open>\<open>js_lt a b\<close> is \<open>a < b\<close>: on numbers it holds when \<open>a <= b\<close> does and \<open>b <= a\<close> does not.\<close>

definition js_lt :: "number \<Rightarrow> number \<Rightarrow> bool" where
  "js_lt a b \<longleftrightarrow> js_le a b \<and> \<not> js_le b a"

section \<open>Types (the \<open>@/types\<close> module)\<close>

datatype rating = Good | NeedsImprovement | Poor

record MetricThreshold =
  good :: number
  needsImprovement :: number

datatype category_tag =
  Rendering | Network | Javascript | Images | Fonts | Css | ThirdParty | Server
datatype status_tag = Excellent | StatusGood | StatusNeedsImprovement | Critical
datatype impact_tag = ImpactHigh | ImpactMedium | ImpactLow

record ComponentMetrics =
  loadTime :: "number option"
  size' :: "number option"
  renderTime :: "number option"
  blockingTime :: "number option"

record ComponentAnalysis =
  id' :: string
  name :: string
  category :: category_tag
  status :: status_tag
  impact :: impact_tag
  metrics :: ComponentMetrics
  description :: string
  affectedMetrics :: "string list"

datatype priority_tag = PriorityCritical | PriorityHigh | PriorityMedium | PriorityLow
datatype suggestion_category = Performance | Accessibility | Seo | BestPractices
datatype effort_tag = Easy | Medium | Hard

record AISuggestion =
  id' :: string
  title :: string
  description :: string
  priority :: priority_tag
  category :: suggestion_category
  estimatedImpact :: string
  effort :: effort_tag
  codeExample :: "string option"
  affectedComponents :: "string list"
  potentialGain :: number

record ResourceTiming =
  name :: string
  initiatorType :: string
  duration :: number
  transferSize :: number
  startTime :: number

record HistoricalData =
  date :: string
  lcp :: number
  fcp :: number
  cls :: number
  ttfb :: number
  score :: number

text \<open>
  The \<open>metrics\<close> object of an entry has the optional keys \<open>lcp, fcp, cls, fid, inp, ttfb\<close>.
  It is kept as the list of its own properties in insertion order, which is the order
  \<open>Object.entries\<close> enumerates them in; a property may be present and hold \<open>undefined\<close>
  (\<open>None\<close>). A \<open>Date\<close> is its time value, the milliseconds since the epoch.
\<close>

type_synonym metric_set = "(string \<times> number option) list"

record PerformanceEntry =
  id' :: string
  url :: string
  timestamp :: int
  metrics :: metric_set
  resourceTimings :: "ResourceTiming list"
  overallScore :: number
  componentAnalysis :: "ComponentAnalysis list option"
  aiSuggestions :: "AISuggestion list option"

definition metric_keys :: "string list" where
  "metric_keys = [''lcp'', ''fcp'', ''cls'', ''fid'', ''inp'', ''ttfb'']"

text \<open>A metrics object of the declared type: no key twice, every key one of the six.\<close>

definition well_typed :: "metric_set \<Rightarrow> bool" where
  "well_typed ms \<longleftrightarrow> distinct (map fst ms) \<and> set (map fst ms) \<subseteq> set metric_keys"

subsection \<open>The threshold table and \<open>getMetricRating\<close>\<close>

definition METRIC_THRESHOLDS :: "(string \<times> MetricThreshold) list" where
  "METRIC_THRESHOLDS =
    [(''LCP'', \<lparr>good = Finite 2500, needsImprovement = Finite 4000\<rparr>),
     (''FCP'', \<lparr>good = Finite 1800, needsImprovement = Finite 3000\<rparr>),
     (''CLS'', \<lparr>good = Finite 0.1, needsImprovement = Finite 0.25\<rparr>),
     (''FID'', \<lparr>good = Finite 100, needsImprovement = Finite 300\<rparr>),
     (''INP'', \<lparr>good = Finite 200, needsImprovement = Finite 500\<rparr>),
     (''TTFB'', \<lparr>good = Finite 800, needsImprovement = Finite 1800\<rparr>)]"

text \<open>
  \<open>METRIC_THRESHOLDS\<close> is an object literal, so the read \<open>METRIC_THRESHOLDS[name]\<close> walks
  the prototype chain: a name that is not an own key of the table but is a property of
  \<open>Object.prototype\<close> yields that built-in member (a function, or the prototype object
  itself for \<open>__proto__\<close>), and only the remaining names yield \<open>undefined\<close>.
\<close>

definition object_prototype_keys :: "string list" where
  "object_prototype_keys =
    [''constructor'', ''hasOwnProperty'', ''isPrototypeOf'', ''propertyIsEnumerable'',
     ''toLocaleString'', ''toString'', ''valueOf'', ''__proto__'',
     ''__defineGetter__'', ''__defineSetter__'', ''__lookupGetter__'', ''__lookupSetter__'']"

datatype property = Undefined | Row MetricThreshold | Builtin

definition METRIC_THRESHOLDS_get :: "string \<Rightarrow> property" where
  "METRIC_THRESHOLDS_get name' =
    (case map_of METRIC_THRESHOLDS name' of
       Some t \<Rightarrow> Row t
     | None \<Rightarrow> if name' \<in> set object_prototype_keys then Builtin else Undefined)"

text \<open>
  The operands \<open>threshold.good\<close> and \<open>threshold.needsImprovement\<close> of the comparisons,
  converted to numbers: a built-in member has neither property, the read is \<open>undefined\<close>
  and \<open>undefined\<close> converts to \<open>NaN\<close>.
\<close>

fun threshold_good :: "property \<Rightarrow> number" where
  "threshold_good (Row t) = good t"
| "threshold_good _ = NaN"

fun threshold_needsImprovement :: "property \<Rightarrow> number" where
  "threshold_needsImprovement (Row t) = needsImprovement t"
| "threshold_needsImprovement _ = NaN"

definition getMetricRating :: "string \<Rightarrow> number \<Rightarrow> rating" where
  "getMetricRating name' value =
    (let threshold = METRIC_THRESHOLDS_get name' in
     if threshold = Undefined then Good
     else if js_le value (threshold_good threshold) then Good
     else if js_le value (threshold_needsImprovement threshold) then NeedsImprovement
     else Poor)"

subsection \<open>\<open>calculateOverallScore\<close>\<close>

definition weights :: "(string \<times> nat) list" where
  "weights = [(''lcp'', 25), (''fcp'', 15), (''cls'', 25), (''fid'', 10), (''inp'', 15), (''ttfb'', 10)]"

text \<open>
  \<open>weights[key] || 0\<close>. \<open>weights\<close> is an object literal too: an own key reads its
  number, a name that is a property of \<open>Object.prototype\<close> reads that built-in member,
  which is truthy and no number (\<open>None\<close>), and every other name reads \<open>undefined\<close>,
  which \<open>|| 0\<close> turns into \<open>0\<close>.
\<close>

definition weights_get :: "string \<Rightarrow> nat option" where
  "weights_get key =
    (case map_of weights key of
       Some w \<Rightarrow> Some w
     | None \<Rightarrow> if key \<in> set object_prototype_keys then None else Some 0)"

text \<open>\<open>toUpperCase\<close> on the ASCII letters, which is all the six keys contain.\<close>

definition toUpperCase_char :: "char \<Rightarrow> char" where
  "toUpperCase_char c =
    (case map_of (zip ''abcdefghijklmnopqrstuvwxyz'' ''ABCDEFGHIJKLMNOPQRSTUVWXYZ'') c of
       Some u \<Rightarrow> u
     | None \<Rightarrow> c)"

definition toUpperCase :: "string \<Rightarrow> string" where
  "toUpperCase s = map toUpperCase_char s"

definition rating_score :: "rating \<Rightarrow> nat" where
  "rating_score r = (case r of Good \<Rightarrow> 100 | NeedsImprovement \<Rightarrow> 50 | Poor \<Rightarrow> 0)"

text \<open>
  The accumulators \<open>totalScore\<close> and \<open>totalWeight\<close>. As long as every weight read is a
  number they are two natural numbers below \<open>2^53\<close>, where the double arithmetic is
  exact. Once a weight read is a built-in member, \<open>score * weight\<close> is \<open>NaN\<close> and
  \<open>totalWeight += weight\<close> concatenates text: from then on \<open>totalScore\<close> is \<open>NaN\<close> and
  \<open>totalWeight\<close> is a string that is no numeral (\<open>Corrupted\<close>), whatever is added later.
\<close>

datatype accumulators = Numbers nat nat | Corrupted

text \<open>One round of the \<open>forEach\<close> callback.\<close>

fun score_step :: "accumulators \<Rightarrow> string \<times> number option \<Rightarrow> accumulators" where
  "score_step acc (key, None) = acc"
| "score_step Corrupted (key, Some value) = Corrupted"
| "score_step (Numbers totalScore totalWeight) (key, Some value) =
    (let metricName = toUpperCase key;
         rating = getMetricRating metricName value;
         score = rating_score rating
     in case weights_get key of
          Some weight \<Rightarrow> Numbers (totalScore + score * weight) (totalWeight + weight)
        | None \<Rightarrow> Corrupted)"

text \<open>
  \<open>Math.round\<close> returns the integer nearest to its argument, the larger one at a tie:
  \<open>\<lfloor>x + 1/2\<rfloor>\<close>, which is HOL's \<^const>\<open>round\<close>. The argument is the double nearest to
  the quotient of two naturals with a divisor of at most 100; such a quotient is either
  exactly a half-integer, and then a double, or at least \<open>1/200\<close> away from every
  half-integer, so rounding the double and rounding the exact quotient agree. On
  corrupted accumulators \<open>totalWeight > 0\<close> compares \<open>NaN\<close> with \<open>0\<close> and is false.
\<close>

definition calculateOverallScore :: "metric_set \<Rightarrow> int" where
  "calculateOverallScore ms =
    (case foldl score_step (Numbers 0 0) ms of
       Numbers totalScore totalWeight \<Rightarrow>
         if totalWeight > 0 then round (real totalScore / real totalWeight) else 0
     | Corrupted \<Rightarrow> 0)"

text \<open>
  For the proofs: the weight of a key as a number (\<open>0\<close> where the read is none), and what
  one property of the metrics object adds to the two accumulators, nothing when its value
  is \<open>undefined\<close>.
\<close>

definition numeric_weight :: "string \<Rightarrow> nat" where
  "numeric_weight key = (case weights_get key of Some w \<Rightarrow> w | None \<Rightarrow> 0)"

fun contribution :: "string \<times> number option \<Rightarrow> nat \<times> nat" where
  "contribution (k, None) = (0, 0)"
| "contribution (k, Some v) =
     (rating_score (getMetricRating (toUpperCase k) v) * numeric_weight k, numeric_weight k)"

subsection \<open>The score as the specification words it\<close>

text \<open>
  The specification's threshold row of each metric of a metric set (\<open>good\<close> and
  \<open>needsImprovement\<close>), its rating rule, the weights
  \<open>lcp:25, cls:25, inp:15, fcp:15, fid:10, ttfb:10\<close> and the rating points
  \<open>good \<rightarrow> 100, needs-improvement \<rightarrow> 50, poor \<rightarrow> 0\<close>. Only the present metrics count; the
  score is the weighted sum over the sum of the weights used, rounded, and \<open>0\<close> when no
  metric is present. A metric set is read here as a function from the metric name to its
  value, \<open>None\<close> for an absent metric.
\<close>

definition spec_thresholds :: "(string \<times> real \<times> real) list" where
  "spec_thresholds =
    [(''lcp'', 2500, 4000), (''fcp'', 1800, 3000), (''cls'', 0.1, 0.25),
     (''fid'', 100, 300), (''inp'', 200, 500), (''ttfb'', 800, 1800)]"

definition spec_rate :: "string \<Rightarrow> number \<Rightarrow> rating" where
  "spec_rate k v =
    (case map_of spec_thresholds k of
       None \<Rightarrow> Good
     | Some (g, ni) \<Rightarrow>
         if js_le v (Finite g) then Good
         else if js_le v (Finite ni) then NeedsImprovement
         else Poor)"

definition spec_weights :: "(string \<times> nat) list" where
  "spec_weights =
    [(''lcp'', 25), (''cls'', 25), (''inp'', 15), (''fcp'', 15), (''fid'', 10), (''ttfb'', 10)]"

definition spec_rating_points :: "rating \<Rightarrow> nat" where
  "spec_rating_points r = (if r = Good then 100 else if r = NeedsImprovement then 50 else 0)"

definition spec_present :: "(string \<Rightarrow> number option) \<Rightarrow> (string \<times> nat) list" where
  "spec_present m = filter (\<lambda>(k, w). m k \<noteq> None) spec_weights"

definition spec_metric_points :: "(string \<Rightarrow> number option) \<Rightarrow> string \<Rightarrow> nat" where
  "spec_metric_points m k =
    (case m k of
       Some v \<Rightarrow> spec_rating_points (spec_rate k v)
     | None \<Rightarrow> 0)"

definition spec_score :: "(string \<Rightarrow> number option) \<Rightarrow> int" where
  "spec_score m =
    (let weighted_sum = (\<Sum>(k, w) \<leftarrow> spec_present m. spec_metric_points m k * w);
         used_weights = (\<Sum>(k, w) \<leftarrow> spec_present m. w)
     in if spec_present m = [] then 0 else round (real weighted_sum / real used_weights))"

text \<open>The value a metrics object holds for a key: absent and \<open>undefined\<close> are both \<open>None\<close>.\<close>

definition metric_value :: "metric_set \<Rightarrow> string \<Rightarrow> number option" where
  "metric_value ms k = (case map_of ms k of Some v \<Rightarrow> v | None \<Rightarrow> None)"

section \<open>The performance store\<close>

record PerformanceState =
  entries :: "PerformanceEntry list"
  historicalData :: "HistoricalData list"
  isMonitoring :: bool
  currentUrl :: string
  isHydrated :: bool

subsection \<open>The static sample data\<close>

definition staticHistoricalData :: "HistoricalData list" where
  "staticHistoricalData =
    [\<lparr>date = ''2024-01-01'', lcp = Finite 2100, fcp = Finite 1400, cls = Finite 0.08,
      ttfb = Finite 520, score = Finite 78\<rparr>,
     \<lparr>date = ''2024-01-02'', lcp = Finite 2250, fcp = Finite 1520, cls = Finite 0.12,
      ttfb = Finite 580, score = Finite 72\<rparr>,
     \<lparr>date = ''2024-01-03'', lcp = Finite 1950, fcp = Finite 1350, cls = Finite 0.06,
      ttfb = Finite 480, score = Finite 82\<rparr>,
     \<lparr>date = ''2024-01-04'', lcp = Finite 2400, fcp = Finite 1600, cls = Finite 0.15,
      ttfb = Finite 620, score = Finite 68\<rparr>,
     \<lparr>date = ''2024-01-05'', lcp = Finite 2050, fcp = Finite 1420, cls = Finite 0.09,
      ttfb = Finite 510, score = Finite 76\<rparr>,
     \<lparr>date = ''2024-01-06'', lcp = Finite 1850, fcp = Finite 1280, cls = Finite 0.05,
      ttfb = Finite 450, score = Finite 85\<rparr>,
     \<lparr>date = ''2024-01-07'', lcp = Finite 2150, fcp = Finite 1480, cls = Finite 0.11,
      ttfb = Finite 560, score = Finite 74\<rparr>,
     \<lparr>date = ''2024-01-08'', lcp = Finite 2300, fcp = Finite 1550, cls = Finite 0.13,
      ttfb = Finite 600, score = Finite 70\<rparr>,
     \<lparr>date = ''2024-01-09'', lcp = Finite 1900, fcp = Finite 1320, cls = Finite 0.07,
      ttfb = Finite 470, score = Finite 80\<rparr>,
     \<lparr>date = ''2024-01-10'', lcp = Finite 2000, fcp = Finite 1380, cls = Finite 0.08,
      ttfb = Finite 500, score = Finite 77\<rparr>,
     \<lparr>date = ''2024-01-11'', lcp = Finite 2200, fcp = Finite 1500, cls = Finite 0.1,
      ttfb = Finite 550, score = Finite 73\<rparr>,
     \<lparr>date = ''2024-01-12'', lcp = Finite 1800, fcp = Finite 1250, cls = Finite 0.04,
      ttfb = Finite 420, score = Finite 88\<rparr>,
     \<lparr>date = ''2024-01-13'', lcp = Finite 2350, fcp = Finite 1580, cls = Finite 0.14,
      ttfb = Finite 610, score = Finite 69\<rparr>,
     \<lparr>date = ''2024-01-14'', lcp = Finite 2100, fcp = Finite 1450, cls = Finite 0.09,
      ttfb = Finite 530, score = Finite 75\<rparr>,
     \<lparr>date = ''2024-01-15'', lcp = Finite 1950, fcp = Finite 1340, cls = Finite 0.06,
      ttfb = Finite 490, score = Finite 81\<rparr>]"

definition staticSampleEntries :: "PerformanceEntry list" where
  "staticSampleEntries =
    [\<lparr>id' = ''sample-entry-1'',
       url = ''https://example.com'',
       timestamp = 1705320000000,
       metrics = [(''lcp'', Some (Finite 2100)), (''fcp'', Some (Finite 1450)), (''cls'', Some (Finite 0.08)),
                  (''fid'', Some (Finite 95)), (''inp'', Some (Finite 180)), (''ttfb'', Some (Finite 520))],
       resourceTimings =
         [\<lparr>name = ''main.js'', initiatorType = ''script'', duration = Finite 220,
            transferSize = Finite 150000, startTime = Finite 100\<rparr>,
          \<lparr>name = ''styles.css'', initiatorType = ''link'', duration = Finite 85,
            transferSize = Finite 25000, startTime = Finite 50\<rparr>,
          \<lparr>name = ''hero.jpg'', initiatorType = ''img'', duration = Finite 340,
            transferSize = Finite 500000, startTime = Finite 200\<rparr>],
       overallScore = Finite 75,
       componentAnalysis = None,
       aiSuggestions = None\<rparr>,
     \<lparr>id' = ''sample-entry-2'',
       url = ''https://example.com/products'',
       timestamp = 1705316400000,
       metrics = [(''lcp'', Some (Finite 2450)), (''fcp'', Some (Finite 1680)), (''cls'', Some (Finite 0.12)),
                  (''fid'', Some (Finite 120)), (''inp'', Some (Finite 220)), (''ttfb'', Some (Finite 610))],
       resourceTimings =
         [\<lparr>name = ''main.js'', initiatorType = ''script'', duration = Finite 280,
            transferSize = Finite 180000, startTime = Finite 100\<rparr>,
          \<lparr>name = ''styles.css'', initiatorType = ''link'', duration = Finite 95,
            transferSize = Finite 28000, startTime = Finite 50\<rparr>,
          \<lparr>name = ''products.jpg'', initiatorType = ''img'', duration = Finite 420,
            transferSize = Finite 650000, startTime = Finite 200\<rparr>],
       overallScore = Finite 62,
       componentAnalysis = None,
       aiSuggestions = None\<rparr>,
     \<lparr>id' = ''sample-entry-3'',
       url = ''https://example.com/about'',
       timestamp = 1705312800000,
       metrics = [(''lcp'', Some (Finite 1850)), (''fcp'', Some (Finite 1280)), (''cls'', Some (Finite 0.05)),
                  (''fid'', Some (Finite 75)), (''inp'', Some (Finite 150)), (''ttfb'', Some (Finite 420))],
       resourceTimings =
         [\<lparr>name = ''main.js'', initiatorType = ''script'', duration = Finite 180,
            transferSize = Finite 120000, startTime = Finite 100\<rparr>,
          \<lparr>name = ''styles.css'', initiatorType = ''link'', duration = Finite 70,
            transferSize = Finite 22000, startTime = Finite 50\<rparr>,
          \<lparr>name = ''team.jpg'', initiatorType = ''img'', duration = Finite 280,
            transferSize = Finite 380000, startTime = Finite 200\<rparr>],
       overallScore = Finite 88,
       componentAnalysis = None,
       aiSuggestions = None\<rparr>,
     \<lparr>id' = ''sample-entry-4'',
       url = ''https://example.com/contact'',
       timestamp = 1705309200000,
       metrics = [(''lcp'', Some (Finite 1720)), (''fcp'', Some (Finite 1150)), (''cls'', Some (Finite 0.03)),
                  (''fid'', Some (Finite 65)), (''inp'', Some (Finite 130)), (''ttfb'', Some (Finite 380))],
       resourceTimings =
         [\<lparr>name = ''main.js'', initiatorType = ''script'', duration = Finite 160,
            transferSize = Finite 100000, startTime = Finite 100\<rparr>,
          \<lparr>name = ''styles.css'', initiatorType = ''link'', duration = Finite 60,
            transferSize = Finite 20000, startTime = Finite 50\<rparr>,
          \<lparr>name = ''map.png'', initiatorType = ''img'', duration = Finite 220,
            transferSize = Finite 280000, startTime = Finite 200\<rparr>],
       overallScore = Finite 92,
       componentAnalysis = None,
       aiSuggestions = None\<rparr>,
     \<lparr>id' = ''sample-entry-5'',
       url = ''https://example.com/blog'',
       timestamp = 1705305600000,
       metrics = [(''lcp'', Some (Finite 2680)), (''fcp'', Some (Finite 1820)), (''cls'', Some (Finite 0.18)),
                  (''fid'', Some (Finite 145)), (''inp'', Some (Finite 280)), (''ttfb'', Some (Finite 720))],
       resourceTimings =
         [\<lparr>name = ''main.js'', initiatorType = ''script'', duration = Finite 320,
            transferSize = Finite 200000, startTime = Finite 100\<rparr>,
          \<lparr>name = ''styles.css'', initiatorType = ''link'', duration = Finite 110,
            transferSize = Finite 32000, startTime = Finite 50\<rparr>,
          \<lparr>name = ''blog-hero.jpg'', initiatorType = ''img'', duration = Finite 480,
            transferSize = Finite 750000, startTime = Finite 200\<rparr>],
       overallScore = Finite 50,
       componentAnalysis = None,
       aiSuggestions = None\<rparr>]"

subsection \<open>Initial state and actions\<close>

definition initial_state :: PerformanceState where
  "initial_state =
    \<lparr>entries = staticSampleEntries,
     historicalData = staticHistoricalData,
     isMonitoring = False,
     currentUrl = [],
     isHydrated = False\<rparr>"

text \<open>
  \<open>addEntry\<close>: \<open>[{ ...entry, id: uuidv4() }, ...state.entries].slice(0, 100)\<close>. The
  identifier that \<open>uuidv4()\<close> returns is the argument \<open>uuid\<close>; the spread copies every
  field of the payload and the \<open>id\<close> after it overrides whatever the payload carried.
\<close>

definition addEntry :: "string \<Rightarrow> PerformanceEntry \<Rightarrow> PerformanceState \<Rightarrow> PerformanceState" where
  "addEntry uuid entry state =
    state\<lparr>entries := take 100 (entry\<lparr>id' := uuid\<rparr> # entries state)\<rparr>"

definition removeEntry :: "string \<Rightarrow> PerformanceState \<Rightarrow> PerformanceState" where
  "removeEntry i state = state\<lparr>entries := filter (\<lambda>e. id' e \<noteq> i) (entries state)\<rparr>"

definition clearEntries :: "PerformanceState \<Rightarrow> PerformanceState" where
  "clearEntries state = state\<lparr>entries := []\<rparr>"

definition setMonitoring :: "bool \<Rightarrow> PerformanceState \<Rightarrow> PerformanceState" where
  "setMonitoring b state = state\<lparr>isMonitoring := b\<rparr>"

definition setCurrentUrl :: "string \<Rightarrow> PerformanceState \<Rightarrow> PerformanceState" where
  "setCurrentUrl u state = state\<lparr>currentUrl := u\<rparr>"

text \<open>\<open>s.split("T")[0]\<close>: the text before the first \<open>T\<close>, all of it when there is none.\<close>

definition split_T_first :: "string \<Rightarrow> string" where
  "split_T_first s = takeWhile (\<lambda>c. c \<noteq> CHR ''T'') s"

text \<open>\<open>xs.slice(-n)\<close>: the last \<open>n\<close> elements, all of them when there are fewer.\<close>

definition slice_last :: "nat \<Rightarrow> 'a list \<Rightarrow> 'a list" where
  "slice_last n xs = drop (length xs - n) xs"

text \<open>
  \<open>addHistoricalData\<close>: the argument \<open>now\<close> is the text \<open>new Date().toISOString()\<close>
  returns, the current instant in UTC as \<open>YYYY-MM-DDTHH:mm:ss.sssZ\<close>.
\<close>

definition addHistoricalData ::
  "string \<Rightarrow> HistoricalData \<Rightarrow> PerformanceState \<Rightarrow> PerformanceState" where
  "addHistoricalData now data state =
    state\<lparr>historicalData :=
      slice_last 90 (historicalData state @ [data\<lparr>date := split_T_first now\<rparr>])\<rparr>"

definition initializeSampleData :: "PerformanceState \<Rightarrow> PerformanceState" where
  "initializeSampleData state =
    (if length (entries state) = 0
     then state\<lparr>entries := staticSampleEntries, historicalData := staticHistoricalData\<rparr>
     else state)"

definition setHydrated :: "bool \<Rightarrow> PerformanceState \<Rightarrow> PerformanceState" where
  "setHydrated hydrated state = state\<lparr>isHydrated := hydrated\<rparr>"

text \<open>
  The callback that \<open>onRehydrateStorage\<close> hands to the persistence layer:
  \<open>(state) => { state?.setHydrated(true) }\<close>. It does nothing when it is handed
  \<open>undefined\<close>.
\<close>

definition onRehydrateStorage :: "PerformanceState option \<Rightarrow> PerformanceState option" where
  "onRehydrateStorage state =
    (case state of None \<Rightarrow> None | Some s \<Rightarrow> Some (setHydrated True s))"

subsection \<open>The store as a transition system\<close>

datatype action =
    AddEntry string PerformanceEntry
  | RemoveEntry string
  | ClearEntries
  | SetMonitoring bool
  | SetCurrentUrl string
  | AddHistoricalData string HistoricalData
  | InitializeSampleData
  | SetHydrated bool

fun step :: "action \<Rightarrow> PerformanceState \<Rightarrow> PerformanceState" where
  "step (AddEntry uuid entry) s = addEntry uuid entry s"
| "step (RemoveEntry i) s = removeEntry i s"
| "step ClearEntries s = clearEntries s"
| "step (SetMonitoring b) s = setMonitoring b s"
| "step (SetCurrentUrl u) s = setCurrentUrl u s"
| "step (AddHistoricalData now data) s = addHistoricalData now data s"
| "step InitializeSampleData s = initializeSampleData s"
| "step (SetHydrated b) s = setHydrated b s"

text \<open>A run: the actions of a list applied one after the other.\<close>

fun run :: "PerformanceState \<Rightarrow> action list \<Rightarrow> PerformanceState" where
  "run s [] = s"
| "run s (a # as) = run (step a s) as"

text \<open>
  The protocol of \<open>setHydrated\<close>: it is called by the rehydration callback, which passes
  \<open>true\<close>, and by nothing else. A run follows the protocol when each \<open>setHydrated\<close> call
  in it is such a call, the completion of a load of the durable state.
\<close>

definition callback_calls_only :: "action list \<Rightarrow> bool" where
  "callback_calls_only as \<longleftrightarrow> SetHydrated False \<notin> set as"

definition within_capacity :: "PerformanceState \<Rightarrow> bool" where
  "within_capacity s \<longleftrightarrow> length (entries s) \<le> 100 \<and> length (historicalData s) \<le> 90"

section \<open>Properties of the rating function\<close>

lemma js_lt_Finite [simp]: "js_lt (Finite a) (Finite b) \<longleftrightarrow> a < b"
  by (auto simp: js_lt_def)

lemma table_rows:
  "map_of METRIC_THRESHOLDS n = Some t \<Longrightarrow>
     (n, t) \<in> {(''LCP'', \<lparr>good = Finite 2500, needsImprovement = Finite 4000\<rparr>),
               (''FCP'', \<lparr>good = Finite 1800, needsImprovement = Finite 3000\<rparr>),
               (''CLS'', \<lparr>good = Finite 0.1, needsImprovement = Finite 0.25\<rparr>),
               (''FID'', \<lparr>good = Finite 100, needsImprovement = Finite 300\<rparr>),
               (''INP'', \<lparr>good = Finite 200, needsImprovement = Finite 500\<rparr>),
               (''TTFB'', \<lparr>good = Finite 800, needsImprovement = Finite 1800\<rparr>)}"
  unfolding METRIC_THRESHOLDS_def by (simp split: if_splits)

lemma rating_of_row:
  assumes "map_of METRIC_THRESHOLDS n = Some t"
  shows "getMetricRating n v =
     (if js_le v (good t) then Good
      else if js_le v (needsImprovement t) then NeedsImprovement else Poor)"
  using assms by (simp add: getMetricRating_def METRIC_THRESHOLDS_get_def)

lemma row_ordered:
  assumes "map_of METRIC_THRESHOLDS n = Some t"
  shows "case (good t, needsImprovement t) of (Finite a, Finite b) \<Rightarrow> a < b | _ \<Rightarrow> False"
  using table_rows [OF assms] by (elim insertE emptyE) simp_all

lemma row_finite:
  assumes "map_of METRIC_THRESHOLDS n = Some t"
  obtains a b where "good t = Finite a" "needsImprovement t = Finite b" "a < b"
  using row_ordered [OF assms] by (cases "good t"; cases "needsImprovement t"; simp)

lemma table_has_rows:
  "map_of METRIC_THRESHOLDS ''LCP'' = Some \<lparr>good = Finite 2500, needsImprovement = Finite 4000\<rparr>"
  "map_of METRIC_THRESHOLDS ''FCP'' = Some \<lparr>good = Finite 1800, needsImprovement = Finite 3000\<rparr>"
  "map_of METRIC_THRESHOLDS ''CLS'' = Some \<lparr>good = Finite 0.1, needsImprovement = Finite 0.25\<rparr>"
  "map_of METRIC_THRESHOLDS ''FID'' = Some \<lparr>good = Finite 100, needsImprovement = Finite 300\<rparr>"
  "map_of METRIC_THRESHOLDS ''INP'' = Some \<lparr>good = Finite 200, needsImprovement = Finite 500\<rparr>"
  "map_of METRIC_THRESHOLDS ''TTFB'' = Some \<lparr>good = Finite 800, needsImprovement = Finite 1800\<rparr>"
  by (simp_all add: METRIC_THRESHOLDS_def)

text \<open>
  Claim C1. The threshold table has exactly the rows LCP 2500/4000, FCP 1800/3000,
  CLS 0.1/0.25, FID 100/300, INP 200/500 and TTFB 800/1800. For a metric name that is a
  key of the table, with row \<open>t\<close>, and any number \<open>v\<close>: the rating is good when
  \<open>v <= t.good\<close>, needs-improvement when \<open>t.good < v <= t.needsImprovement\<close>, and poor
  when \<open>v > t.needsImprovement\<close>. A value equal to a cut point gets the better rating.
\<close>

theorem getMetricRating_thresholds:
  "(map_of METRIC_THRESHOLDS n = Some t \<longrightarrow>
      (js_le v (good t) \<longrightarrow> getMetricRating n v = Good)
      \<and> (js_lt (good t) v \<and> js_le v (needsImprovement t) \<longrightarrow>
           getMetricRating n v = NeedsImprovement)
      \<and> (js_lt (needsImprovement t) v \<longrightarrow> getMetricRating n v = Poor)
      \<and> getMetricRating n (good t) = Good
      \<and> getMetricRating n (needsImprovement t) = NeedsImprovement
      \<and> (n, t) \<in> {(''LCP'', \<lparr>good = Finite 2500, needsImprovement = Finite 4000\<rparr>),
                   (''FCP'', \<lparr>good = Finite 1800, needsImprovement = Finite 3000\<rparr>),
                   (''CLS'', \<lparr>good = Finite 0.1, needsImprovement = Finite 0.25\<rparr>),
                   (''FID'', \<lparr>good = Finite 100, needsImprovement = Finite 300\<rparr>),
                   (''INP'', \<lparr>good = Finite 200, needsImprovement = Finite 500\<rparr>),
                   (''TTFB'', \<lparr>good = Finite 800, needsImprovement = Finite 1800\<rparr>)})
   \<and> map_of METRIC_THRESHOLDS ''LCP'' = Some \<lparr>good = Finite 2500, needsImprovement = Finite 4000\<rparr>
   \<and> map_of METRIC_THRESHOLDS ''FCP'' = Some \<lparr>good = Finite 1800, needsImprovement = Finite 3000\<rparr>
   \<and> map_of METRIC_THRESHOLDS ''CLS'' = Some \<lparr>good = Finite 0.1, needsImprovement = Finite 0.25\<rparr>
   \<and> map_of METRIC_THRESHOLDS ''FID'' = Some \<lparr>good = Finite 100, needsImprovement = Finite 300\<rparr>
   \<and> map_of METRIC_THRESHOLDS ''INP'' = Some \<lparr>good = Finite 200, needsImprovement = Finite 500\<rparr>
   \<and> map_of METRIC_THRESHOLDS ''TTFB'' = Some \<lparr>good = Finite 800, needsImprovement = Finite 1800\<rparr>"
proof -
  have bands: "(js_le v (good t) \<longrightarrow> getMetricRating n v = Good)
      \<and> (js_lt (good t) v \<and> js_le v (needsImprovement t) \<longrightarrow>
           getMetricRating n v = NeedsImprovement)
      \<and> (js_lt (needsImprovement t) v \<longrightarrow> getMetricRating n v = Poor)
      \<and> getMetricRating n (good t) = Good
      \<and> getMetricRating n (needsImprovement t) = NeedsImprovement
      \<and> (n, t) \<in> {(''LCP'', \<lparr>good = Finite 2500, needsImprovement = Finite 4000\<rparr>),
                   (''FCP'', \<lparr>good = Finite 1800, needsImprovement = Finite 3000\<rparr>),
                   (''CLS'', \<lparr>good = Finite 0.1, needsImprovement = Finite 0.25\<rparr>),
                   (''FID'', \<lparr>good = Finite 100, needsImprovement = Finite 300\<rparr>),
                   (''INP'', \<lparr>good = Finite 200, needsImprovement = Finite 500\<rparr>),
                   (''TTFB'', \<lparr>good = Finite 800, needsImprovement = Finite 1800\<rparr>)}"
    if row: "map_of METRIC_THRESHOLDS n = Some t"
  proof -
    obtain a b where ab: "good t = Finite a" "needsImprovement t = Finite b" "a < b"
      using row_finite [OF row] by blast
    have "(js_le v (good t) \<longrightarrow> getMetricRating n v = Good)
      \<and> (js_lt (good t) v \<and> js_le v (needsImprovement t) \<longrightarrow>
           getMetricRating n v = NeedsImprovement)
      \<and> (js_lt (needsImprovement t) v \<longrightarrow> getMetricRating n v = Poor)
      \<and> getMetricRating n (good t) = Good
      \<and> getMetricRating n (needsImprovement t) = NeedsImprovement"
      unfolding rating_of_row [OF row] ab js_lt_def
      using ab(3) by (cases v) simp_all
    note five = this
    show ?thesis
      apply (intro conjI)
           apply (rule five [THEN conjunct1])
          apply (rule five [THEN conjunct2, THEN conjunct1])
         apply (rule five [THEN conjunct2, THEN conjunct2, THEN conjunct1])
        apply (rule five [THEN conjunct2, THEN conjunct2, THEN conjunct2, THEN conjunct1])
       apply (rule five [THEN conjunct2, THEN conjunct2, THEN conjunct2, THEN conjunct2])
      apply (rule table_rows [OF row])
      done
  qed
  show ?thesis
    apply (intro conjI)
          apply (rule impI, erule bands)
         apply (rule table_has_rows)+
    done
qed

theorem getMetricRating_thresholds_witness:
  "getMetricRating ''LCP'' (Finite 2500) = Good
   \<and> getMetricRating ''LCP'' (Finite 4000) = NeedsImprovement
   \<and> getMetricRating ''LCP'' (Finite 4001) = Poor
   \<and> getMetricRating ''FCP'' (Finite 1800) = Good
   \<and> getMetricRating ''FCP'' (Finite 3000) = NeedsImprovement
   \<and> getMetricRating ''FCP'' (Finite 3001) = Poor
   \<and> getMetricRating ''CLS'' (Finite 0.1) = Good
   \<and> getMetricRating ''CLS'' (Finite 0.25) = NeedsImprovement
   \<and> getMetricRating ''CLS'' (Finite 0.3) = Poor
   \<and> getMetricRating ''FID'' (Finite 100) = Good
   \<and> getMetricRating ''FID'' (Finite 300) = NeedsImprovement
   \<and> getMetricRating ''FID'' (Finite 301) = Poor
   \<and> getMetricRating ''INP'' (Finite 200) = Good
   \<and> getMetricRating ''INP'' (Finite 500) = NeedsImprovement
   \<and> getMetricRating ''INP'' (Finite 501) = Poor
   \<and> getMetricRating ''TTFB'' (Finite 800) = Good
   \<and> getMetricRating ''TTFB'' (Finite 1800) = NeedsImprovement
   \<and> getMetricRating ''TTFB'' (Finite 5000) = Poor"
proof -
  note t1 = getMetricRating_thresholds [of "''LCP''" "\<lparr>good = Finite 2500, needsImprovement = Finite 4000\<rparr>" "Finite 4001"]
  have r1: "map_of METRIC_THRESHOLDS ''LCP'' = Some \<lparr>good = Finite 2500, needsImprovement = Finite 4000\<rparr>"
    by (rule t1 [THEN conjunct2, THEN conjunct1])
  note c1 = t1 [THEN conjunct1, THEN mp, OF r1]
  have "getMetricRating ''LCP'' (Finite 2500) = Good"
    "getMetricRating ''LCP'' (Finite 4000) = NeedsImprovement"
    "getMetricRating ''LCP'' (Finite 4001) = Poor"
    using c1 by simp_all
  note w1 = this
  note t2 = getMetricRating_thresholds [of "''FCP''" "\<lparr>good = Finite 1800, needsImprovement = Finite 3000\<rparr>" "Finite 3001"]
  have r2: "map_of METRIC_THRESHOLDS ''FCP'' = Some \<lparr>good = Finite 1800, needsImprovement = Finite 3000\<rparr>"
    by (rule t2 [THEN conjunct2, THEN conjunct2, THEN conjunct1])
  note c2 = t2 [THEN conjunct1, THEN mp, OF r2]
  have "getMetricRating ''FCP'' (Finite 1800) = Good"
    "getMetricRating ''FCP'' (Finite 3000) = NeedsImprovement"
    "getMetricRating ''FCP'' (Finite 3001) = Poor"
    using c2 by simp_all
  note w2 = this
  note t3 = getMetricRating_thresholds [of "''CLS''" "\<lparr>good = Finite 0.1, needsImprovement = Finite 0.25\<rparr>" "Finite 0.3"]
  have r3: "map_of METRIC_THRESHOLDS ''CLS'' = Some \<lparr>good = Finite 0.1, needsImprovement = Finite 0.25\<rparr>"
    by (rule t3 [THEN conjunct2, THEN conjunct2, THEN conjunct2, THEN conjunct1])
  note c3 = t3 [THEN conjunct1, THEN mp, OF r3]
  have "getMetricRating ''CLS'' (Finite 0.1) = Good"
    "getMetricRating ''CLS'' (Finite 0.25) = NeedsImprovement"
    "getMetricRating ''CLS'' (Finite 0.3) = Poor"
    using c3 by simp_all
  note w3 = this
  note t4 = getMetricRating_thresholds [of "''FID''" "\<lparr>good = Finite 100, needsImprovement = Finite 300\<rparr>" "Finite 301"]
  have r4: "map_of METRIC_THRESHOLDS ''FID'' = Some \<lparr>good = Finite 100, needsImprovement = Finite 300\<rparr>"
    by (rule t4 [THEN conjunct2, THEN conjunct2, THEN conjunct2, THEN conjunct2, THEN conjunct1])
  note c4 = t4 [THEN conjunct1, THEN mp, OF r4]
  have "getMetricRating ''FID'' (Finite 100) = Good"
    "getMetricRating ''FID'' (Finite 300) = NeedsImprovement"
    "getMetricRating ''FID'' (Finite 301) = Poor"
    using c4 by simp_all
  note w4 = this
  note t5 = getMetricRating_thresholds [of "''INP''" "\<lparr>good = Finite 200, needsImprovement = Finite 500\<rparr>" "Finite 501"]
  have r5: "map_of METRIC_THRESHOLDS ''INP'' = Some \<lparr>good = Finite 200, needsImprovement = Finite 500\<rparr>"
    by (rule t5 [THEN conjunct2, THEN conjunct2, THEN conjunct2, THEN conjunct2, THEN conjunct2, THEN conjunct1])
  note c5 = t5 [THEN conjunct1, THEN mp, OF r5]
  have "getMetricRating ''INP'' (Finite 200) = Good"
    "getMetricRating ''INP'' (Finite 500) = NeedsImprovement"
    "getMetricRating ''INP'' (Finite 501) = Poor"
    using c5 by simp_all
  note w5 = this
  note t6 = getMetricRating_thresholds [of "''TTFB''" "\<lparr>good = Finite 800, needsImprovement = Finite 1800\<rparr>" "Finite 5000"]
  have r6: "map_of METRIC_THRESHOLDS ''TTFB'' = Some \<lparr>good = Finite 800, needsImprovement = Finite 1800\<rparr>"
    by (rule t6 [THEN conjunct2, THEN conjunct2, THEN conjunct2, THEN conjunct2, THEN conjunct2, THEN conjunct2])
  note c6 = t6 [THEN conjunct1, THEN mp, OF r6]
  have "getMetricRating ''TTFB'' (Finite 800) = Good"
    "getMetricRating ''TTFB'' (Finite 1800) = NeedsImprovement"
    "getMetricRating ''TTFB'' (Finite 5000) = Poor"
    using c6 by simp_all
  note w6 = this
  show ?thesis
    by (intro conjI) (rule w1 w2 w3 w4 w5 w6)+
qed

text \<open>
  Claim C3. For every metric name that is not in the threshold table and every value
  \<open>v \<ge> 0\<close> the rating is good. The lookup in the table is a property read on an object
  literal, and the name \<open>constructor\<close>, which is no key of the table, reads the
  constructor inherited from \<open>Object.prototype\<close>: the guard for a missing row does not
  fire, both comparisons are against \<open>undefined\<close>, and the rating is poor.
\<close>

theorem getMetricRating_inherited_name:
  "map_of METRIC_THRESHOLDS ''constructor'' = None
   \<and> js_le (Finite 0) (Finite 0)
   \<and> getMetricRating ''constructor'' (Finite 0) = Poor"
  by (simp add: getMetricRating_def METRIC_THRESHOLDS_get_def METRIC_THRESHOLDS_def
      object_prototype_keys_def)

text \<open>Every other name outside the table is rated good, whatever the value.\<close>

lemma getMetricRating_unknown:
  assumes "map_of METRIC_THRESHOLDS n = None" "n \<notin> set object_prototype_keys"
  shows "getMetricRating n v = Good"
  using assms by (simp add: getMetricRating_def METRIC_THRESHOLDS_get_def)

section \<open>Properties of the overall score\<close>

lemma weight_of_keys:
  "numeric_weight ''lcp'' = 25" "numeric_weight ''fcp'' = 15" "numeric_weight ''cls'' = 25"
  "numeric_weight ''fid'' = 10" "numeric_weight ''inp'' = 15" "numeric_weight ''ttfb'' = 10"
  by (simp_all add: numeric_weight_def weights_get_def weights_def)

lemma weights_get_metric_key:
  "k \<in> set metric_keys \<Longrightarrow> weights_get k = Some (numeric_weight k)"
  by (auto simp: metric_keys_def numeric_weight_def weights_get_def weights_def)

lemma toUpperCase_metric_keys:
  "map toUpperCase metric_keys = [''LCP'', ''FCP'', ''CLS'', ''FID'', ''INP'', ''TTFB'']"
  by (simp add: metric_keys_def toUpperCase_def toUpperCase_char_def)

text \<open>The code rates each metric of a metric set against the specification's row for it.\<close>

lemma rate_keys:
  "getMetricRating (toUpperCase ''lcp'') v = spec_rate ''lcp'' v"
  "getMetricRating (toUpperCase ''fcp'') v = spec_rate ''fcp'' v"
  "getMetricRating (toUpperCase ''cls'') v = spec_rate ''cls'' v"
  "getMetricRating (toUpperCase ''fid'') v = spec_rate ''fid'' v"
  "getMetricRating (toUpperCase ''inp'') v = spec_rate ''inp'' v"
  "getMetricRating (toUpperCase ''ttfb'') v = spec_rate ''ttfb'' v"
  by (simp_all add: toUpperCase_def toUpperCase_char_def getMetricRating_def
      METRIC_THRESHOLDS_get_def METRIC_THRESHOLDS_def spec_rate_def spec_thresholds_def)

lemma foldl_score_step:
  "set (map fst ms) \<subseteq> set metric_keys \<Longrightarrow>
   foldl score_step (Numbers a b) ms =
     Numbers (a + (\<Sum>p \<leftarrow> ms. fst (contribution p))) (b + (\<Sum>p \<leftarrow> ms. snd (contribution p)))"
proof (induction ms arbitrary: a b)
  case Nil
  show ?case by simp
next
  case (Cons p ms)
  obtain k v where p: "p = (k, v)" by (cases p)
  from Cons.prems have k: "k \<in> set metric_keys" and rest: "set (map fst ms) \<subseteq> set metric_keys"
    by (simp_all add: p)
  show ?case
    by (cases v) (simp_all add: p Cons.IH [OF rest] weights_get_metric_key [OF k] Let_def)
qed

lemma foldl_score_step_undefined:
  "(\<And>p. p \<in> set ms \<Longrightarrow> snd p = None) \<Longrightarrow> foldl score_step acc ms = acc"
proof (induction ms arbitrary: acc)
  case Nil
  show ?case by simp
next
  case (Cons p ms)
  obtain k v where p: "p = (k, v)" by (cases p)
  from Cons.prems [of p] have v: "v = None" by (simp add: p)
  have "foldl score_step acc ms = acc"
    by (rule Cons.IH) (simp add: Cons.prems)
  then show ?case by (simp add: p v)
qed

lemma sum_list_delta:
  "distinct ks \<Longrightarrow> k0 \<in> set ks \<Longrightarrow> (\<Sum>k \<leftarrow> ks. if k = k0 then c else 0) = (c::nat)"
  by (induction ks) auto

text \<open>A sum over the properties of a metrics object, taken key by key instead.\<close>

lemma sum_list_by_key:
  fixes f :: "string \<Rightarrow> number option \<Rightarrow> nat"
  assumes "distinct (map fst ms)" "set (map fst ms) \<subseteq> set ks" "distinct ks" "\<And>k. f k None = 0"
  shows "(\<Sum>p \<leftarrow> ms. f (fst p) (snd p)) = (\<Sum>k \<leftarrow> ks. f k (metric_value ms k))"
  using assms(1,2)
proof (induction ms)
  case Nil
  show ?case by (simp add: metric_value_def assms(4))
next
  case (Cons p ms)
  obtain k0 v0 where p: "p = (k0, v0)" by (cases p)
  from Cons.prems have fresh: "k0 \<notin> fst ` set ms" and k0: "k0 \<in> set ks"
    and rest: "distinct (map fst ms)" "set (map fst ms) \<subseteq> set ks"
    by (auto simp: p)
  have "map_of ms k0 = None"
    using fresh by (simp add: map_of_eq_None_iff)
  then have none: "metric_value ms k0 = None"
    by (simp add: metric_value_def)
  have "(\<Sum>k \<leftarrow> ks. f k (metric_value (p # ms) k))
      = (\<Sum>k \<leftarrow> ks. f k (metric_value ms k) + (if k = k0 then f k0 v0 else 0))"
    by (rule arg_cong [where f = sum_list], rule map_cong)
       (auto simp: p metric_value_def none [unfolded metric_value_def] assms(4)
          split: option.splits)
  also have "\<dots> = (\<Sum>k \<leftarrow> ks. f k (metric_value ms k)) + f k0 v0"
    by (simp add: sum_list_addf sum_list_delta [OF assms(3) k0])
  finally show ?case
    using Cons.IH [OF rest] by (simp add: p)
qed

lemma rating_score_points: "rating_score r = spec_rating_points r"
  by (cases r) (simp_all add: rating_score_def spec_rating_points_def)

lemma sum_list_spec_weights:
  fixes h :: "string \<times> nat \<Rightarrow> nat"
  shows "(\<Sum>x \<leftarrow> spec_weights. h x) =
     h (''lcp'', 25) + h (''cls'', 25) + h (''inp'', 15) + h (''fcp'', 15)
       + h (''fid'', 10) + h (''ttfb'', 10)"
  by (simp add: spec_weights_def)

lemma sum_list_metric_keys:
  fixes h :: "string \<Rightarrow> nat"
  shows "(\<Sum>k \<leftarrow> metric_keys. h k) =
     h ''lcp'' + h ''fcp'' + h ''cls'' + h ''fid'' + h ''inp'' + h ''ttfb''"
  by (simp add: metric_keys_def)

lemma spec_weighted_sum:
  "(\<Sum>(k, w) \<leftarrow> spec_present m. spec_metric_points m k * w)
     = (\<Sum>k \<leftarrow> metric_keys. fst (contribution (k, m k)))"
proof -
  have eq: "(if m k \<noteq> None then spec_metric_points m k * w else 0) = fst (contribution (k, m k))"
    if "numeric_weight k = w" "\<And>v. getMetricRating (toUpperCase k) v = spec_rate k v" for k w
    using that by (cases "m k") (simp_all add: spec_metric_points_def rating_score_points)
  show ?thesis
    unfolding spec_present_def sum_list_map_filter' sum_list_spec_weights sum_list_metric_keys
    by (simp only: prod.case eq [OF weight_of_keys(1) rate_keys(1)]
        eq [OF weight_of_keys(2) rate_keys(2)] eq [OF weight_of_keys(3) rate_keys(3)]
        eq [OF weight_of_keys(4) rate_keys(4)] eq [OF weight_of_keys(5) rate_keys(5)]
        eq [OF weight_of_keys(6) rate_keys(6)])
qed

lemma spec_used_weights:
  "(\<Sum>(k, w) \<leftarrow> spec_present m. w) = (\<Sum>k \<leftarrow> metric_keys. snd (contribution (k, m k)))"
proof -
  have eq: "(if m k \<noteq> None then w else 0) = snd (contribution (k, m k))"
    if "numeric_weight k = w" for k w
    using that by (cases "m k") simp_all
  show ?thesis
    unfolding spec_present_def sum_list_map_filter' sum_list_spec_weights sum_list_metric_keys
    by (simp only: prod.case weight_of_keys [THEN eq])
qed

lemma spec_present_Nil:
  "spec_present m = [] \<longleftrightarrow> (\<Sum>k \<leftarrow> metric_keys. snd (contribution (k, m k))) = 0"
proof -
  have "spec_present m = [] \<longleftrightarrow> (\<forall>k \<in> set metric_keys. m k = None)"
    by (simp add: spec_present_def filter_empty_conv spec_weights_def metric_keys_def)
  also have "\<dots> \<longleftrightarrow> (\<forall>k \<in> set metric_keys. snd (contribution (k, m k)) = 0)"
  proof -
    have "m k = None \<longleftrightarrow> snd (contribution (k, m k)) = 0" if "k \<in> set metric_keys" for k
      using that by (cases "m k") (auto simp: metric_keys_def weight_of_keys)
    then show ?thesis by blast
  qed
  finally show ?thesis by (simp add: sum_list_eq_0_iff)
qed

lemma score_refines_spec:
  assumes "well_typed ms"
  shows "calculateOverallScore ms = spec_score (metric_value ms)"
proof -
  have d: "distinct metric_keys" by (simp add: metric_keys_def)
  from assms have wt: "distinct (map fst ms)" "set (map fst ms) \<subseteq> set metric_keys"
    by (simp_all add: well_typed_def)
  have s1: "(\<Sum>p \<leftarrow> ms. fst (contribution p))
             = (\<Sum>k \<leftarrow> metric_keys. fst (contribution (k, metric_value ms k)))"
    using sum_list_by_key [OF wt d, of "\<lambda>k v. fst (contribution (k, v))"] by simp
  have s2: "(\<Sum>p \<leftarrow> ms. snd (contribution p))
             = (\<Sum>k \<leftarrow> metric_keys. snd (contribution (k, metric_value ms k)))"
    using sum_list_by_key [OF wt d, of "\<lambda>k v. snd (contribution (k, v))"] by simp
  define S where "S = (\<Sum>k \<leftarrow> metric_keys. fst (contribution (k, metric_value ms k)))"
  define W where "W = (\<Sum>k \<leftarrow> metric_keys. snd (contribution (k, metric_value ms k)))"
  have code: "calculateOverallScore ms = (if W > 0 then round (real S / real W) else 0)"
    unfolding calculateOverallScore_def foldl_score_step [OF wt(2)] s1 s2
      S_def [symmetric] W_def [symmetric]
    by simp
  have spec: "spec_score (metric_value ms) = (if W = 0 then 0 else round (real S / real W))"
    unfolding spec_score_def spec_present_Nil spec_weighted_sum spec_used_weights
      S_def [symmetric] W_def [symmetric]
    by simp
  show ?thesis
    unfolding code spec by simp
qed

lemma score_nothing_present:
  assumes "\<And>p. p \<in> set ms \<Longrightarrow> snd p = None"
  shows "calculateOverallScore ms = 0"
proof -
  have "foldl score_step (Numbers 0 0) ms = Numbers 0 0"
    by (rule foldl_score_step_undefined) (rule assms)
  then show ?thesis
    by (simp add: calculateOverallScore_def)
qed

lemmas score_defs =
  calculateOverallScore_def toUpperCase_def toUpperCase_char_def getMetricRating_def
  METRIC_THRESHOLDS_get_def METRIC_THRESHOLDS_def weights_get_def weights_def
  rating_score_def object_prototype_keys_def

lemma score_examples:
  "calculateOverallScore [(''lcp'', Some (Finite 3000)), (''cls'', Some (Finite 0.05))] = 75"
  "calculateOverallScore [] = 0"
  "calculateOverallScore [(''lcp'', Some (Finite 5000))] = 0"
  "calculateOverallScore
     [(''lcp'', Some (Finite 2000)), (''cls'', Some (Finite 0.05)), (''fcp'', Some (Finite 1500)),
      (''fid'', Some (Finite 80)), (''inp'', Some (Finite 150)), (''ttfb'', Some (Finite 700))]
     = 100"
  by (simp_all add: score_defs)

text \<open>
  A metrics object with a defined value under a name inherited from \<open>Object.prototype\<close>
  corrupts the accumulators, and the score is \<open>0\<close>.
\<close>

lemma score_inherited_key:
  "calculateOverallScore [(''lcp'', Some (Finite 1000)), (''constructor'', Some (Finite 5))] = 0"
  by (simp add: score_defs)

text \<open>
  Claim C2. The score of a metric set is the rounded quotient of the weighted sum by the
  sum of the weights used, over the present metrics only, each rated against its own row
  of the threshold table, with the rating points \<open>100/50/0\<close> and the weights
  \<open>lcp:25, cls:25, inp:15, fcp:15, fid:10, ttfb:10\<close>; it is \<open>0\<close> when no metric is
  present; and the score of \<open>{lcp: 3000, cls: 0.05}\<close> is 75. The metrics object is any
  object of the declared type, whatever the order of its keys; the row names the code
  looks up for the six keys are LCP, FCP, CLS, FID, INP and TTFB.
\<close>

theorem calculateOverallScore_weighted_average:
  "(well_typed ms \<longrightarrow> calculateOverallScore ms = spec_score (metric_value ms))
   \<and> ((\<forall>p \<in> set ns. snd p = None) \<longrightarrow> calculateOverallScore ns = 0)
   \<and> calculateOverallScore [(''lcp'', Some (Finite 3000)), (''cls'', Some (Finite 0.05))] = 75
   \<and> map toUpperCase metric_keys = [''LCP'', ''FCP'', ''CLS'', ''FID'', ''INP'', ''TTFB'']
   \<and> calculateOverallScore [] = 0
   \<and> calculateOverallScore [(''lcp'', Some (Finite 5000))] = 0
   \<and> calculateOverallScore
       [(''lcp'', Some (Finite 2000)), (''cls'', Some (Finite 0.05)),
        (''fcp'', Some (Finite 1500)), (''fid'', Some (Finite 80)),
        (''inp'', Some (Finite 150)), (''ttfb'', Some (Finite 700))] = 100"
  using score_refines_spec [of ms] score_nothing_present [of ns] score_examples
    toUpperCase_metric_keys
  by blast

theorem calculateOverallScore_weighted_average_witness:
  "well_typed [(''cls'', Some (Finite 0.3)), (''ttfb'', Some (Finite 900)), (''fid'', None)]
   \<and> calculateOverallScore
        [(''cls'', Some (Finite 0.3)), (''ttfb'', Some (Finite 900)), (''fid'', None)]
       = spec_score (metric_value
        [(''cls'', Some (Finite 0.3)), (''ttfb'', Some (Finite 900)), (''fid'', None)])
   \<and> spec_score (metric_value
        [(''cls'', Some (Finite 0.3)), (''ttfb'', Some (Finite 900)), (''fid'', None)]) = 14
   \<and> calculateOverallScore [(''fid'', None)] = 0"
proof -
  let ?ms = "[(''cls'', Some (Finite 0.3)), (''ttfb'', Some (Finite 900)), (''fid'', None)]"
  have wt: "well_typed ?ms"
    by (simp add: well_typed_def metric_keys_def)
  have n: "(\<forall>p \<in> set [(''fid'', None :: number option)]. snd p = None)"
    by simp
  have r: "calculateOverallScore ?ms = spec_score (metric_value ?ms)"
    and z: "calculateOverallScore [(''fid'', None)] = 0"
    using wt n calculateOverallScore_weighted_average [of ?ms "[(''fid'', None)]"]
    by blast+
  have v: "calculateOverallScore ?ms = 14"
    by (simp add: score_defs round_def)
  show ?thesis
    using wt z v unfolding r [symmetric] by simp
qed

section \<open>Properties of the store\<close>

lemma take_append_take: "take n (xs @ take n ys) = take n (xs @ ys)"
  by (simp add: min_def)

lemma slice_last_append_slice_last:
  "slice_last n (slice_last n xs @ ys) = slice_last n (xs @ ys)"
  by (cases "n \<le> length xs") (simp_all add: slice_last_def add.commute)

lemma length_slice_last: "length (slice_last n xs) = min n (length xs)"
  by (auto simp: slice_last_def)

lemma entries_addEntry: "entries (addEntry u p s) = take 100 (p\<lparr>id' := u\<rparr> # entries s)"
  unfolding addEntry_def by simp

lemma historicalData_addHistoricalData:
  "historicalData (addHistoricalData n d s)
     = slice_last 90 (historicalData s @ [d\<lparr>date := split_T_first n\<rparr>])"
  unfolding addHistoricalData_def by simp

text \<open>A run of \<open>addEntry\<close> calls: the stamped payloads, newest first, capped at 100.\<close>

lemma entries_run_AddEntry:
  "length (entries s) \<le> 100 \<Longrightarrow>
   entries (run s (map (\<lambda>(u, p). AddEntry u p) ps))
     = take 100 (rev (map (\<lambda>(u, p). p\<lparr>id' := u\<rparr>) ps) @ entries s)"
proof (induction ps arbitrary: s)
  case Nil
  then show ?case by simp
next
  case (Cons x ps)
  let ?F = "\<lambda>(u, p). AddEntry u p" and ?G = "\<lambda>(u, p). p\<lparr>id' := u\<rparr>"
  obtain u p where x: "x = (u, p)" by (cases x)
  have "entries (run s (map ?F (x # ps))) = entries (run (addEntry u p s) (map ?F ps))"
    by (simp add: x)
  also have "\<dots> = take 100 (rev (map ?G ps) @ entries (addEntry u p s))"
    by (rule Cons.IH) (simp add: entries_addEntry)
  also have "\<dots> = take 100 (rev (map ?G ps) @ ?G x # entries s)"
    unfolding entries_addEntry x prod.case by (rule take_append_take)
  also have "\<dots> = take 100 (rev (map ?G (x # ps)) @ entries s)"
    by simp
  finally show ?case .
qed

text \<open>A run of \<open>addHistoricalData\<close> calls: the stamped points, oldest first, the last 90.\<close>

lemma historicalData_run_AddHistoricalData:
  "length (historicalData s) \<le> 90 \<Longrightarrow>
   historicalData (run s (map (\<lambda>(n, d). AddHistoricalData n d) ps))
     = slice_last 90 (historicalData s @ map (\<lambda>(n, d). d\<lparr>date := split_T_first n\<rparr>) ps)"
proof (induction ps arbitrary: s)
  case Nil
  then show ?case by (simp add: slice_last_def)
next
  case (Cons x ps)
  let ?F = "\<lambda>(n, d). AddHistoricalData n d"
    and ?G = "\<lambda>(n, d). d\<lparr>date := split_T_first n\<rparr>"
  obtain n d where x: "x = (n, d)" by (cases x)
  have "historicalData (run s (map ?F (x # ps)))
          = historicalData (run (addHistoricalData n d s) (map ?F ps))"
    by (simp add: x)
  also have "\<dots> = slice_last 90 (historicalData (addHistoricalData n d s) @ map ?G ps)"
    by (rule Cons.IH) (simp add: historicalData_addHistoricalData length_slice_last)
  also have "\<dots> = slice_last 90 ((historicalData s @ [?G x]) @ map ?G ps)"
    unfolding historicalData_addHistoricalData x prod.case
    by (rule slice_last_append_slice_last)
  also have "\<dots> = slice_last 90 (historicalData s @ map ?G (x # ps))"
    by simp
  finally show ?case .
qed

lemma within_capacity_step: "within_capacity s \<Longrightarrow> within_capacity (step a s)"
proof (cases a)
  case (AddEntry u p)
  assume "within_capacity s"
  then show ?thesis
    by (simp add: AddEntry within_capacity_def addEntry_def)
next
  case (AddHistoricalData n d)
  assume "within_capacity s"
  then show ?thesis
    by (simp add: AddHistoricalData within_capacity_def addHistoricalData_def length_slice_last)
next
  case InitializeSampleData
  assume "within_capacity s"
  then show ?thesis
    by (simp add: InitializeSampleData within_capacity_def initializeSampleData_def
        staticSampleEntries_def staticHistoricalData_def)
next
  case (RemoveEntry i)
  assume "within_capacity s"
  then show ?thesis
    by (auto simp: RemoveEntry within_capacity_def removeEntry_def
        intro: le_trans [OF length_filter_le])
qed (simp_all add: within_capacity_def clearEntries_def setMonitoring_def setCurrentUrl_def
      setHydrated_def)

lemma within_capacity_run: "within_capacity s \<Longrightarrow> within_capacity (run s as)"
  by (induction as arbitrary: s) (simp_all add: within_capacity_step)

lemma length_static: "length staticSampleEntries = 5" "length staticHistoricalData = 15"
  by (simp_all add: staticSampleEntries_def staticHistoricalData_def)

lemma within_capacity_initial: "within_capacity initial_state"
  by (simp add: within_capacity_def initial_state_def length_static)

lemma addEntry_single:
  "entries (addEntry u p s) = take 100 (p\<lparr>id' := u\<rparr> # entries s)
   \<and> hd (entries (addEntry u p s)) = p\<lparr>id' := u\<rparr>
   \<and> id' (hd (entries (addEntry u p s))) = u
   \<and> tl (entries (addEntry u p s)) = take 99 (entries s)
   \<and> addEntry u (p\<lparr>id' := x\<rparr>) s = addEntry u p s
   \<and> length (entries (addEntry u p s)) = min 100 (Suc (length (entries s)))
   \<and> historicalData (addEntry u p s) = historicalData s
   \<and> isMonitoring (addEntry u p s) = isMonitoring s
   \<and> currentUrl (addEntry u p s) = currentUrl s
   \<and> isHydrated (addEntry u p s) = isHydrated s"
  by (simp add: addEntry_def)

lemma addEntry_distinct_ids:
  assumes "u \<notin> id' ` set (entries s)" "distinct (map id' (entries s))"
  shows "distinct (map id' (entries (addEntry u p s)))"
proof -
  have "distinct (map id' (p\<lparr>id' := u\<rparr> # entries s))"
    using assms by simp
  then have "distinct (take 100 (map id' (p\<lparr>id' := u\<rparr> # entries s)))"
    by (rule distinct_take)
  then show ?thesis
    unfolding entries_addEntry take_map .
qed

lemma addEntry_101_times:
  assumes "entries s = []" "length ps = 101"
  shows "entries (run s (map (\<lambda>(u, p). AddEntry u p) ps))
           = rev (map (\<lambda>(u, p). p\<lparr>id' := u\<rparr>) (tl ps))"
    and "length (entries (run s (map (\<lambda>(u, p). AddEntry u p) ps))) = 100"
    and "hd (entries (run s (map (\<lambda>(u, p). AddEntry u p) ps)))
           = (snd (last ps))\<lparr>id' := fst (last ps)\<rparr>"
proof -
  let ?G = "\<lambda>(u, p). p\<lparr>id' := u\<rparr>"
  obtain x qs where ps: "ps = x # qs" and qs: "length qs = 100"
    using assms(2) by (cases ps) simp_all
  have "entries (run s (map (\<lambda>(u, p). AddEntry u p) ps)) = take 100 (rev (map ?G ps) @ entries s)"
    by (rule entries_run_AddEntry) (simp add: assms(1))
  also have "\<dots> = rev (map ?G qs)"
    by (simp add: assms(1) ps qs)
  finally show e: "entries (run s (map (\<lambda>(u, p). AddEntry u p) ps)) = rev (map ?G (tl ps))"
    by (simp add: ps)
  show "length (entries (run s (map (\<lambda>(u, p). AddEntry u p) ps))) = 100"
    unfolding e by (simp add: ps qs)
  have ne: "qs \<noteq> []" using qs by auto
  show "hd (entries (run s (map (\<lambda>(u, p). AddEntry u p) ps)))
           = (snd (last ps))\<lparr>id' := fst (last ps)\<rparr>"
    unfolding e using ne by (simp add: ps hd_rev last_map case_prod_beta)
qed

text \<open>
  Claim C4. \<open>addEntry\<close> puts the payload at the front of the entries with the identifier
  the store generated for it, whatever \<open>id\<close> field the payload carried, and keeps the
  100 most recent entries: the new one and the first 99 of the old ones, nothing else of
  the state changing and no error arising. An identifier that no stored entry has keeps
  the identifiers pairwise different. From an empty sequence, 101 calls leave exactly 100
  entries, the payload of the first call is the one dropped and the head is the entry of
  the 101st call. In a run, each \<open>AddEntry u p\<close> is one call with generated identifier
  \<open>u\<close> and payload \<open>p\<close>.
\<close>

theorem addEntry_front_capped:
  "entries (addEntry u p s) = take 100 (p\<lparr>id' := u\<rparr> # entries s)
   \<and> hd (entries (addEntry u p s)) = p\<lparr>id' := u\<rparr>
   \<and> id' (hd (entries (addEntry u p s))) = u
   \<and> tl (entries (addEntry u p s)) = take 99 (entries s)
   \<and> addEntry u (p\<lparr>id' := x\<rparr>) s = addEntry u p s
   \<and> length (entries (addEntry u p s)) = min 100 (Suc (length (entries s)))
   \<and> historicalData (addEntry u p s) = historicalData s
   \<and> isMonitoring (addEntry u p s) = isMonitoring s
   \<and> currentUrl (addEntry u p s) = currentUrl s
   \<and> isHydrated (addEntry u p s) = isHydrated s
   \<and> (u \<notin> id' ` set (entries s) \<and> distinct (map id' (entries s)) \<longrightarrow>
        distinct (map id' (entries (addEntry u p s))))
   \<and> (entries s = [] \<and> length ps = 101 \<longrightarrow>
        length (entries (run s (map (\<lambda>(u, p). AddEntry u p) ps))) = 100
        \<and> hd (entries (run s (map (\<lambda>(u, p). AddEntry u p) ps)))
            = (snd (last ps))\<lparr>id' := fst (last ps)\<rparr>
        \<and> entries (run s (map (\<lambda>(u, p). AddEntry u p) ps))
            = rev (map (\<lambda>(u, p). p\<lparr>id' := u\<rparr>) (tl ps)))"
  using addEntry_single [of u p s x] addEntry_distinct_ids [of u s p]
    addEntry_101_times [of s ps]
  by blast

theorem addEntry_front_capped_witness:
  "entries (clearEntries initial_state) = []
   \<and> length (map (\<lambda>n. (replicate n CHR ''a'', (hd staticSampleEntries)\<lparr>timestamp := int n\<rparr>))
        [0..<101]) = 101
   \<and> length (entries (run (clearEntries initial_state)
        (map (\<lambda>(u, p). AddEntry u p)
          (map (\<lambda>n. (replicate n CHR ''a'', (hd staticSampleEntries)\<lparr>timestamp := int n\<rparr>))
            [0..<101])))) = 100
   \<and> hd (entries (run (clearEntries initial_state)
        (map (\<lambda>(u, p). AddEntry u p)
          (map (\<lambda>n. (replicate n CHR ''a'', (hd staticSampleEntries)\<lparr>timestamp := int n\<rparr>))
            [0..<101]))))
       = (hd staticSampleEntries)\<lparr>timestamp := 100, id' := replicate 100 CHR ''a''\<rparr>
   \<and> ''fresh'' \<notin> id' ` set (entries initial_state)
   \<and> distinct (map id' (entries initial_state))
   \<and> distinct (map id' (entries (addEntry ''fresh'' (hd staticSampleEntries) initial_state)))"
proof -
  let ?ps = "map (\<lambda>n. (replicate n CHR ''a'', (hd staticSampleEntries)\<lparr>timestamp := int n\<rparr>))
    [0..<101]"
  have e: "entries (clearEntries initial_state) = []"
    by (simp add: clearEntries_def)
  have l: "length ?ps = 101"
    by simp
  have f: "''fresh'' \<notin> id' ` set (entries initial_state)"
    by (simp add: initial_state_def staticSampleEntries_def)
  have d: "distinct (map id' (entries initial_state))"
    by (simp add: initial_state_def staticSampleEntries_def)
  have lst: "last ?ps = (replicate 100 CHR ''a'', (hd staticSampleEntries)\<lparr>timestamp := 100\<rparr>)"
    by (simp add: last_map)
  have r: "length (entries (run (clearEntries initial_state) (map (\<lambda>(u, p). AddEntry u p) ?ps)))
             = 100
         \<and> hd (entries (run (clearEntries initial_state) (map (\<lambda>(u, p). AddEntry u p) ?ps)))
             = (snd (last ?ps))\<lparr>id' := fst (last ?ps)\<rparr>"
    using e l
      addEntry_front_capped [of "''fresh''" "hd staticSampleEntries"
        "clearEntries initial_state" "''x''" ?ps]
    by blast
  have k: "distinct (map id' (entries (addEntry ''fresh'' (hd staticSampleEntries) initial_state)))"
    using f d
      addEntry_front_capped [of "''fresh''" "hd staticSampleEntries" initial_state "''x''" "[]"]
    by blast
  show ?thesis
    using e l f d k r unfolding lst by simp
qed

text \<open>
  Claim C5. The capacity bounds are an invariant: a state with at most 100 entries and at
  most 90 historical points is taken by every operation of the store to such a state,
  the initial state is such a state, and so is every state a run reaches from it.
\<close>

theorem capacity_invariant:
  "(within_capacity s \<longrightarrow> within_capacity (step a s))
   \<and> within_capacity initial_state
   \<and> within_capacity (run initial_state as)"
  using within_capacity_step [of s a] within_capacity_initial
    within_capacity_run [OF within_capacity_initial, of as]
  by blast

theorem capacity_invariant_witness:
  "within_capacity initial_state
   \<and> within_capacity (step (AddEntry ''u1'' (hd staticSampleEntries)) initial_state)
   \<and> length (entries (step (AddEntry ''u1'' (hd staticSampleEntries)) initial_state)) = 6
   \<and> within_capacity
       (step (AddHistoricalData ''2024-02-01T08:30:00.000Z'' (hd staticHistoricalData)) initial_state)"
proof -
  have w: "within_capacity initial_state"
    by (simp add: within_capacity_def initial_state_def length_static)
  have n: "length (entries (step (AddEntry ''u1'' (hd staticSampleEntries)) initial_state)) = 6"
    by (simp add: addEntry_def initial_state_def length_static)
  show ?thesis
    using w n
      capacity_invariant [of initial_state "AddEntry ''u1'' (hd staticSampleEntries)"]
      capacity_invariant [of initial_state
        "AddHistoricalData ''2024-02-01T08:30:00.000Z'' (hd staticHistoricalData)"]
    by simp
qed

lemma split_T_first_date:
  "CHR ''T'' \<notin> set day \<Longrightarrow> split_T_first (day @ CHR ''T'' # rest) = day"
  by (induction day) (auto simp: split_T_first_def)

lemma slice_last_slice_last:
  assumes "m \<le> n"
  shows "slice_last m (slice_last n xs) = slice_last m xs"
proof -
  have "length xs - (length xs - n + m) + (length xs - n) = length xs - m"
    using assms by arith
  then show ?thesis
    by (simp add: slice_last_def)
qed

lemma addHistoricalData_single:
  "historicalData (addHistoricalData now d s)
     = slice_last 90 (historicalData s @ [d\<lparr>date := split_T_first now\<rparr>])
   \<and> last (historicalData (addHistoricalData now d s)) = d\<lparr>date := split_T_first now\<rparr>
   \<and> date (last (historicalData (addHistoricalData now d s))) = split_T_first now
   \<and> butlast (historicalData (addHistoricalData now d s)) = slice_last 89 (historicalData s)
   \<and> length (historicalData (addHistoricalData now d s))
       = min 90 (Suc (length (historicalData s)))
   \<and> addHistoricalData now (d\<lparr>date := x\<rparr>) s = addHistoricalData now d s
   \<and> entries (addHistoricalData now d s) = entries s
   \<and> isMonitoring (addHistoricalData now d s) = isMonitoring s
   \<and> currentUrl (addHistoricalData now d s) = currentUrl s
   \<and> isHydrated (addHistoricalData now d s) = isHydrated s"
  by (simp add: addHistoricalData_def slice_last_def butlast_drop min_def)

lemma addHistoricalData_twice:
  "slice_last 2 (historicalData (addHistoricalData n2 d2 (addHistoricalData n1 d1 s)))
     = [d1\<lparr>date := split_T_first n1\<rparr>, d2\<lparr>date := split_T_first n2\<rparr>]"
proof -
  have "historicalData (addHistoricalData n2 d2 (addHistoricalData n1 d1 s))
      = slice_last 90 ((historicalData s @ [d1\<lparr>date := split_T_first n1\<rparr>])
          @ [d2\<lparr>date := split_T_first n2\<rparr>])"
    unfolding historicalData_addHistoricalData by (rule slice_last_append_slice_last)
  then show ?thesis
    by (simp add: slice_last_slice_last) (simp add: slice_last_def)
qed

lemma addHistoricalData_91_times:
  assumes "historicalData s = []" "length ps = 91"
  shows "historicalData (run s (map (\<lambda>(n, d). AddHistoricalData n d) ps))
           = map (\<lambda>(n, d). d\<lparr>date := split_T_first n\<rparr>) (tl ps)"
    and "length (historicalData (run s (map (\<lambda>(n, d). AddHistoricalData n d) ps))) = 90"
proof -
  let ?G = "\<lambda>(n, d). d\<lparr>date := split_T_first n\<rparr>"
  obtain x qs where ps: "ps = x # qs" and qs: "length qs = 90"
    using assms(2) by (cases ps) simp_all
  have "historicalData (run s (map (\<lambda>(n, d). AddHistoricalData n d) ps))
          = slice_last 90 (historicalData s @ map ?G ps)"
    by (rule historicalData_run_AddHistoricalData) (simp add: assms(1))
  also have "\<dots> = map ?G qs"
    by (simp add: assms(1) ps qs slice_last_def)
  finally show e: "historicalData (run s (map (\<lambda>(n, d). AddHistoricalData n d) ps))
                     = map ?G (tl ps)"
    by (simp add: ps)
  show "length (historicalData (run s (map (\<lambda>(n, d). AddHistoricalData n d) ps))) = 90"
    unfolding e by (simp add: ps qs)
qed

text \<open>
  Claim C6. \<open>addHistoricalData\<close> appends the point, stamped with the part of the current
  UTC time text before the \<open>T\<close> (the calendar day), at the end of the historical sequence
  and keeps the last 90 points: the new one and the last 89 of the old ones. It appends
  whatever dates the sequence already holds, so after two calls the last two points are
  the two new ones, with the same date when the calls fall on the same day. From an
  empty sequence, 91 calls leave exactly 90 points, the one of the first call dropped.
\<close>

theorem addHistoricalData_appends_capped:
  "historicalData (addHistoricalData now d s)
     = slice_last 90 (historicalData s @ [d\<lparr>date := split_T_first now\<rparr>])
   \<and> last (historicalData (addHistoricalData now d s)) = d\<lparr>date := split_T_first now\<rparr>
   \<and> date (last (historicalData (addHistoricalData now d s))) = split_T_first now
   \<and> butlast (historicalData (addHistoricalData now d s)) = slice_last 89 (historicalData s)
   \<and> length (historicalData (addHistoricalData now d s))
       = min 90 (Suc (length (historicalData s)))
   \<and> entries (addHistoricalData now d s) = entries s
   \<and> (CHR ''T'' \<notin> set day \<longrightarrow> split_T_first (day @ CHR ''T'' # rest) = day)
   \<and> slice_last 2 (historicalData (addHistoricalData n2 d2 (addHistoricalData n1 d1 s)))
       = [d1\<lparr>date := split_T_first n1\<rparr>, d2\<lparr>date := split_T_first n2\<rparr>]
   \<and> (historicalData s = [] \<and> length ps = 91 \<longrightarrow>
        length (historicalData (run s (map (\<lambda>(n, d). AddHistoricalData n d) ps))) = 90
        \<and> historicalData (run s (map (\<lambda>(n, d). AddHistoricalData n d) ps))
            = map (\<lambda>(n, d). d\<lparr>date := split_T_first n\<rparr>) (tl ps))"
  using addHistoricalData_single [of now d s] split_T_first_date [of day rest]
    addHistoricalData_twice [of n2 d2 n1 d1 s] addHistoricalData_91_times [of s ps]
  by blast

theorem addHistoricalData_appends_capped_witness:
  "historicalData (initial_state\<lparr>historicalData := []\<rparr>) = []
   \<and> length (map (\<lambda>n. (''2024-03-01T10:15:00.000Z'', (hd staticHistoricalData)\<lparr>lcp := Finite (real n)\<rparr>))
        [0..<91]) = 91
   \<and> length (historicalData (run (initial_state\<lparr>historicalData := []\<rparr>)
        (map (\<lambda>(n, d). AddHistoricalData n d)
          (map (\<lambda>n. (''2024-03-01T10:15:00.000Z'', (hd staticHistoricalData)\<lparr>lcp := Finite (real n)\<rparr>))
            [0..<91])))) = 90
   \<and> CHR ''T'' \<notin> set ''2024-03-01''
   \<and> split_T_first ''2024-03-01T10:15:00.000Z'' = ''2024-03-01''
   \<and> map date (slice_last 2 (historicalData
        (addHistoricalData ''2024-03-01T18:00:00.000Z'' (hd staticHistoricalData)
          (addHistoricalData ''2024-03-01T10:15:00.000Z'' (hd staticHistoricalData) initial_state))))
       = [''2024-03-01'', ''2024-03-01'']"
proof -
  let ?ps = "map (\<lambda>n. (''2024-03-01T10:15:00.000Z'',
      (hd staticHistoricalData)\<lparr>lcp := Finite (real n)\<rparr>)) [0..<91]"
  let ?s = "initial_state\<lparr>historicalData := []\<rparr>"
  have e: "historicalData ?s = []"
    by simp
  have l: "length ?ps = 91"
    by simp
  have t: "CHR ''T'' \<notin> set ''2024-03-01''"
    by simp
  have r: "length (historicalData (run ?s (map (\<lambda>(n, d). AddHistoricalData n d) ?ps))) = 90"
    using e l
      addHistoricalData_appends_capped [of "''now''" "hd staticHistoricalData" ?s
        "''day''" "''rest''" "''n2''" "hd staticHistoricalData" "''n1''"
        "hd staticHistoricalData" ?ps]
    by blast
  have d: "split_T_first (''2024-03-01'' @ CHR ''T'' # ''10:15:00.000Z'') = ''2024-03-01''"
    using t
      addHistoricalData_appends_capped [of "''now''" "hd staticHistoricalData" initial_state
        "''2024-03-01''" "''10:15:00.000Z''" "''n2''" "hd staticHistoricalData" "''n1''"
        "hd staticHistoricalData" "[]"]
    by blast
  have two: "slice_last 2 (historicalData
        (addHistoricalData ''2024-03-01T18:00:00.000Z'' (hd staticHistoricalData)
          (addHistoricalData ''2024-03-01T10:15:00.000Z'' (hd staticHistoricalData) initial_state)))
      = [(hd staticHistoricalData)\<lparr>date := split_T_first ''2024-03-01T10:15:00.000Z''\<rparr>,
         (hd staticHistoricalData)\<lparr>date := split_T_first ''2024-03-01T18:00:00.000Z''\<rparr>]"
    using addHistoricalData_appends_capped [of "''now''" "hd staticHistoricalData" initial_state
        "''day''" "''rest''" "''2024-03-01T18:00:00.000Z''" "hd staticHistoricalData"
        "''2024-03-01T10:15:00.000Z''" "hd staticHistoricalData" "[]"]
    by blast
  have d2: "split_T_first ''2024-03-01T18:00:00.000Z'' = ''2024-03-01''"
    by (simp add: split_T_first_def)
  show ?thesis
    using e l t r d unfolding two d2 by simp
qed

lemma removeEntry_frame:
  "entries (removeEntry i s) = filter (\<lambda>e. id' e \<noteq> i) (entries s)
   \<and> i \<notin> id' ` set (entries (removeEntry i s))
   \<and> historicalData (removeEntry i s) = historicalData s
   \<and> isMonitoring (removeEntry i s) = isMonitoring s
   \<and> currentUrl (removeEntry i s) = currentUrl s
   \<and> isHydrated (removeEntry i s) = isHydrated s"
  by (auto simp: removeEntry_def)

lemma removeEntry_present:
  assumes "entries s = xs @ e # ys" "id' e = i" "i \<notin> id' ` set xs" "i \<notin> id' ` set ys"
  shows "entries (removeEntry i s) = xs @ ys"
proof -
  have "filter (\<lambda>e. id' e \<noteq> i) xs = xs" "filter (\<lambda>e. id' e \<noteq> i) ys = ys"
    using assms(3,4) by (auto simp: filter_id_conv)
  then show ?thesis
    by (simp add: removeEntry_def assms(1,2))
qed

lemma removeEntry_absent:
  assumes "i \<notin> id' ` set (entries s)"
  shows "removeEntry i s = s \<and> entries (removeEntry i s) = entries s
         \<and> length (entries (removeEntry i s)) = length (entries s)"
proof -
  have "filter (\<lambda>e. id' e \<noteq> i) (entries s) = entries s"
    using assms by (auto simp: filter_id_conv)
  then show ?thesis
    by (simp add: removeEntry_def)
qed

text \<open>
  Claim C7. \<open>removeEntry(id)\<close> keeps exactly the entries whose identifier differs, in
  their order, and touches nothing else: an entry with that identifier, between the
  entries \<open>xs\<close> before it and \<open>ys\<close> after it, is removed and \<open>xs\<close> followed by
  \<open>ys\<close> remains; when no entry has the identifier the state is unchanged. No error
  arises in either case.
\<close>

theorem removeEntry_by_id:
  "entries (removeEntry i s) = filter (\<lambda>e. id' e \<noteq> i) (entries s)
   \<and> i \<notin> id' ` set (entries (removeEntry i s))
   \<and> historicalData (removeEntry i s) = historicalData s
   \<and> isMonitoring (removeEntry i s) = isMonitoring s
   \<and> currentUrl (removeEntry i s) = currentUrl s
   \<and> isHydrated (removeEntry i s) = isHydrated s
   \<and> (entries s = xs @ e # ys \<and> id' e = i \<and> i \<notin> id' ` set xs \<and> i \<notin> id' ` set ys \<longrightarrow>
        entries (removeEntry i s) = xs @ ys)
   \<and> (i \<notin> id' ` set (entries s) \<longrightarrow>
        removeEntry i s = s \<and> entries (removeEntry i s) = entries s
        \<and> length (entries (removeEntry i s)) = length (entries s))"
  using removeEntry_frame [of i s] removeEntry_present [of s xs e ys i]
    removeEntry_absent [of i s]
  by blast

theorem removeEntry_by_id_witness:
  "entries initial_state
     = take 1 staticSampleEntries @ staticSampleEntries ! 1 # drop 2 staticSampleEntries
   \<and> id' (staticSampleEntries ! 1) = ''sample-entry-2''
   \<and> ''sample-entry-2'' \<notin> id' ` set (take 1 staticSampleEntries)
   \<and> ''sample-entry-2'' \<notin> id' ` set (drop 2 staticSampleEntries)
   \<and> entries (removeEntry ''sample-entry-2'' initial_state)
       = take 1 staticSampleEntries @ drop 2 staticSampleEntries
   \<and> map id' (entries (removeEntry ''sample-entry-2'' initial_state))
       = [''sample-entry-1'', ''sample-entry-3'', ''sample-entry-4'', ''sample-entry-5'']
   \<and> ''no-such-id'' \<notin> id' ` set (entries initial_state)
   \<and> removeEntry ''no-such-id'' initial_state = initial_state"
proof -
  let ?xs = "take 1 staticSampleEntries" and ?e = "staticSampleEntries ! 1"
    and ?ys = "drop 2 staticSampleEntries"
  have a: "entries initial_state = ?xs @ ?e # ?ys"
    by (simp add: initial_state_def staticSampleEntries_def)
  have b: "id' ?e = ''sample-entry-2''"
    by (simp add: staticSampleEntries_def)
  have c: "''sample-entry-2'' \<notin> id' ` set ?xs"
    by (simp add: staticSampleEntries_def)
  have d: "''sample-entry-2'' \<notin> id' ` set ?ys"
    by (simp add: staticSampleEntries_def)
  have f: "''no-such-id'' \<notin> id' ` set (entries initial_state)"
    by (simp add: initial_state_def staticSampleEntries_def)
  have r: "entries (removeEntry ''sample-entry-2'' initial_state) = ?xs @ ?ys"
    using a b c d removeEntry_by_id [of "''sample-entry-2''" initial_state ?xs ?e ?ys]
    by blast
  have k: "removeEntry ''no-such-id'' initial_state = initial_state"
    using f removeEntry_by_id [of "''no-such-id''" initial_state "[]" ?e "[]"]
    by blast
  have m: "map id' (?xs @ ?ys)
      = [''sample-entry-1'', ''sample-entry-3'', ''sample-entry-4'', ''sample-entry-5'']"
    by (simp add: staticSampleEntries_def)
  show ?thesis
    using a b c d f k m unfolding r by simp
qed

text \<open>
  Claim C8. \<open>initializeSampleData\<close> changes nothing when the entries sequence is not
  empty. When it is empty, entries and historical data become the static sample data, 5
  entries and 15 points, whatever the historical data held before, and the other fields
  stay.
\<close>

theorem initializeSampleData_only_when_empty:
  "(entries s \<noteq> [] \<longrightarrow> initializeSampleData s = s)
   \<and> (entries s = [] \<longrightarrow>
        entries (initializeSampleData s) = staticSampleEntries
        \<and> historicalData (initializeSampleData s) = staticHistoricalData
        \<and> isMonitoring (initializeSampleData s) = isMonitoring s
        \<and> currentUrl (initializeSampleData s) = currentUrl s
        \<and> isHydrated (initializeSampleData s) = isHydrated s)
   \<and> length staticSampleEntries = 5
   \<and> length staticHistoricalData = 15"
  by (simp add: initializeSampleData_def length_static)

theorem initializeSampleData_only_when_empty_witness:
  "entries initial_state \<noteq> []
   \<and> initializeSampleData initial_state = initial_state
   \<and> entries (clearEntries (addHistoricalData ''2024-03-01T10:15:00.000Z''
        (hd staticHistoricalData) initial_state)) = []
   \<and> length (historicalData (clearEntries (addHistoricalData ''2024-03-01T10:15:00.000Z''
        (hd staticHistoricalData) initial_state))) = 16
   \<and> entries (initializeSampleData (clearEntries (addHistoricalData ''2024-03-01T10:15:00.000Z''
        (hd staticHistoricalData) initial_state))) = staticSampleEntries
   \<and> historicalData (initializeSampleData (clearEntries
        (addHistoricalData ''2024-03-01T10:15:00.000Z'' (hd staticHistoricalData) initial_state)))
       = staticHistoricalData"
proof -
  let ?s = "clearEntries (addHistoricalData ''2024-03-01T10:15:00.000Z''
        (hd staticHistoricalData) initial_state)"
  have a: "entries initial_state \<noteq> []"
    by (simp add: initial_state_def staticSampleEntries_def)
  have b: "entries ?s = []"
    by (simp add: clearEntries_def)
  have c: "length (historicalData ?s) = 16"
    by (simp add: clearEntries_def addHistoricalData_def length_slice_last initial_state_def
        length_static)
  show ?thesis
    using a b c initializeSampleData_only_when_empty [of initial_state]
      initializeSampleData_only_when_empty [of ?s]
    by simp
qed

text \<open>
  Claim C9. \<open>clearEntries\<close> empties the entries sequence and leaves every other field
  of the state as it was: the historical data, \<open>isMonitoring\<close>, \<open>currentUrl\<close> and
  \<open>isHydrated\<close>.
\<close>

theorem clearEntries_frame:
  "entries (clearEntries s) = []
   \<and> historicalData (clearEntries s) = historicalData s
   \<and> isMonitoring (clearEntries s) = isMonitoring s
   \<and> currentUrl (clearEntries s) = currentUrl s
   \<and> isHydrated (clearEntries s) = isHydrated s
   \<and> clearEntries s = s\<lparr>entries := []\<rparr>"
  by (simp add: clearEntries_def)

theorem clearEntries_frame_witness:
  "entries (clearEntries initial_state) = []
   \<and> historicalData (clearEntries initial_state) = staticHistoricalData
   \<and> isMonitoring (clearEntries initial_state) = False
   \<and> currentUrl (clearEntries initial_state) = []
   \<and> isHydrated (clearEntries initial_state) = False"
  using clearEntries_frame [of initial_state]
  by (simp add: initial_state_def)

lemma step_isHydrated:
  assumes "\<And>b. a \<noteq> SetHydrated b"
  shows "isHydrated (step a s) = isHydrated s"
proof (cases a)
  case (SetHydrated b)
  with assms show ?thesis by blast
qed (simp_all add: addEntry_def removeEntry_def clearEntries_def setMonitoring_def
      setCurrentUrl_def addHistoricalData_def initializeSampleData_def)

lemma step_keeps_hydrated:
  assumes "a \<noteq> SetHydrated False" "isHydrated s"
  shows "isHydrated (step a s)"
proof (cases "\<exists>b. a = SetHydrated b")
  case True
  then obtain b where a: "a = SetHydrated b" by blast
  with assms(1) have "b" by (cases b) simp_all
  then show ?thesis by (simp add: a setHydrated_def)
next
  case False
  then show ?thesis
    using step_isHydrated [of a s] assms(2) by blast
qed

lemma run_keeps_hydrated:
  "callback_calls_only as \<Longrightarrow> isHydrated s \<Longrightarrow> isHydrated (run s as)"
proof (induction as arbitrary: s)
  case Nil
  then show ?case by simp
next
  case (Cons a as)
  from Cons.prems have "a \<noteq> SetHydrated False" "callback_calls_only as"
    by (auto simp: callback_calls_only_def)
  with Cons.prems(2) show ?case
    using Cons.IH [of "step a s"] step_keeps_hydrated [of a s] by simp
qed

lemma run_without_load:
  "(\<And>b. SetHydrated b \<notin> set as) \<Longrightarrow> isHydrated (run s as) = isHydrated s"
proof (induction as arbitrary: s)
  case Nil
  show ?case by simp
next
  case (Cons a as)
  have a: "a \<noteq> SetHydrated b" for b
    using Cons.prems [of b] by auto
  have as: "SetHydrated b \<notin> set as" for b
    using Cons.prems [of b] by auto
  show ?case
    using Cons.IH [OF as, of "step a s"] step_isHydrated [OF a, of s] by simp
qed

lemma run_append: "run s (as @ bs) = run (run s as) bs"
  by (induction as arbitrary: s) simp_all

lemma run_after_load:
  assumes "callback_calls_only (as @ SetHydrated True # bs)"
  shows "isHydrated (run s (as @ SetHydrated True # bs))"
proof -
  from assms have bs: "callback_calls_only bs"
    by (simp add: callback_calls_only_def)
  have "isHydrated (step (SetHydrated True) (run s as))"
    by (simp add: setHydrated_def)
  from run_keeps_hydrated [OF bs this] show ?thesis
    by (simp add: run_append)
qed

text \<open>
  Claim C10. \<open>isHydrated\<close> starts false. The completion of the load of the durable
  state is the persistence layer invoking the rehydration callback with the store's
  state, and the callback calls \<open>setHydrated(true)\<close>: that step makes the flag true
  whatever state was loaded, a state with no entries included, and changes nothing else.
  No other operation changes the flag. So along every run of the store's steps that
  follows the protocol of \<open>setHydrated\<close>, the flag is as it was as long as no load has
  completed, is true once one has, and never goes from true back to false.
\<close>

theorem isHydrated_no_way_back:
  "\<not> isHydrated initial_state
   \<and> onRehydrateStorage (Some s) = Some (step (SetHydrated True) s)
   \<and> isHydrated (step (SetHydrated True) s)
   \<and> entries (step (SetHydrated True) s) = entries s
   \<and> historicalData (step (SetHydrated True) s) = historicalData s
   \<and> ((\<forall>b. a \<noteq> SetHydrated b) \<longrightarrow> isHydrated (step a s) = isHydrated s)
   \<and> (a \<noteq> SetHydrated False \<and> isHydrated s \<longrightarrow> isHydrated (step a s))
   \<and> (callback_calls_only as \<and> isHydrated s \<longrightarrow> isHydrated (run s as))
   \<and> ((\<forall>b. SetHydrated b \<notin> set as) \<longrightarrow> isHydrated (run s as) = isHydrated s)
   \<and> (callback_calls_only (as @ SetHydrated True # bs) \<longrightarrow>
        isHydrated (run s (as @ SetHydrated True # bs)))"
  using step_isHydrated [of a s] step_keeps_hydrated [of a s] run_keeps_hydrated [of as s]
    run_without_load [of as s] run_after_load [of as bs s]
  by (simp add: initial_state_def onRehydrateStorage_def setHydrated_def)

theorem isHydrated_no_way_back_witness:
  "callback_calls_only [ClearEntries, SetHydrated True, InitializeSampleData]
   \<and> \<not> isHydrated (run initial_state [ClearEntries])
   \<and> isHydrated (run initial_state ([ClearEntries] @ SetHydrated True # [InitializeSampleData]))
   \<and> isHydrated (run (step (SetHydrated True) initial_state)
        [ClearEntries, SetHydrated True, InitializeSampleData])
   \<and> isHydrated (step ClearEntries (step (SetHydrated True) initial_state))
   \<and> entries (clearEntries initial_state) = []
   \<and> onRehydrateStorage (Some (clearEntries initial_state))
       = Some (step (SetHydrated True) (clearEntries initial_state))"
proof -
  let ?as = "[ClearEntries, SetHydrated True, InitializeSampleData]"
  let ?h = "step (SetHydrated True) initial_state"
  note T1 = isHydrated_no_way_back [of ?h ClearEntries ?as "[]"]
  note T2 = isHydrated_no_way_back [of initial_state ClearEntries "[ClearEntries]"
      "[InitializeSampleData]"]
  note T3 = isHydrated_no_way_back [of "clearEntries initial_state" ClearEntries "[]" "[]"]
  have a: "callback_calls_only ?as"
    by (simp add: callback_calls_only_def)
  have a': "callback_calls_only ([ClearEntries] @ SetHydrated True # [InitializeSampleData])"
    by (simp add: callback_calls_only_def)
  have b: "isHydrated ?h"
    by (simp add: setHydrated_def)
  have c: "ClearEntries \<noteq> SetHydrated False"
    by simp
  have n: "\<forall>b. SetHydrated b \<notin> set [ClearEntries]"
    by simp
  have i: "\<not> isHydrated initial_state"
    using T2 by blast
  have r: "isHydrated (run ?h ?as)"
    using a b T1 by blast
  have k: "isHydrated (step ClearEntries ?h)"
    using b c T1 by blast
  have f: "isHydrated (run initial_state [ClearEntries]) = isHydrated initial_state"
    using n T2 by blast
  have g: "isHydrated (run initial_state ([ClearEntries] @ SetHydrated True # [InitializeSampleData]))"
    using a' T2 by blast
  have o: "onRehydrateStorage (Some (clearEntries initial_state))
       = Some (step (SetHydrated True) (clearEntries initial_state))"
    using T3 by blast
  have e: "entries (clearEntries initial_state) = []"
    by (simp add: clearEntries_def)
  show ?thesis
    using a i r k f g o e by blast
qed

text \<open>
  Outside the protocol, the setter itself takes any flag: \<open>setHydrated(false)\<close>, which
  nothing in the repository calls, would take a hydrated state back to not hydrated.
\<close>

lemma setHydrated_False_resets:
  "isHydrated (step (SetHydrated True) initial_state)
   \<and> \<not> isHydrated (step (SetHydrated False) (step (SetHydrated True) initial_state))"
  by (simp add: setHydrated_def)

end
